theory Spec2Isabelle
  imports Complex_Main "HOL-Library.AList"
begin

section \<open>Values of the host language\<close>

text \<open>
  A JavaScript string is a sequence of UTF-16 code units; \<open>slice\<close>, \<open>+\<close> and the
  comparison \<open>===\<close> work on that sequence. A code unit is modelled by its number, and
  \<open>js\<close> turns an ASCII literal of the source into its code units.
\<close>

type_synonym ustring = "nat list"

definition js :: "string \<Rightarrow> ustring" where
  "js s = map of_char s"

text \<open>
  A thrown \<open>Error\<close> object: its \<open>name\<close>, its \<open>message\<close>, and the two optional
  properties that the tasks attach with \<open>Object.assign\<close> and read back in their
  \<open>catch\<close> blocks (\<open>code\<close> and \<open>status\<close>).
\<close>

datatype jserror = JSError (ename: ustring) (emessage: ustring)
                           (ecode: "ustring option") (estatus: "int option")

definition Error :: "ustring \<Rightarrow> jserror" where
  "Error msg = JSError (js ''Error'') msg None None"

definition AbortTaskRunError :: "ustring \<Rightarrow> jserror" where
  "AbortTaskRunError msg = JSError (js ''AbortTaskRunError'') msg None None"

section \<open>The environment: clock and random source\<close>

text \<open>
  \<open>Date.now()\<close> and \<open>Math.random()\<close> are the two inputs that the tasks read from
  their environment. The \<open>k\<close>-th reading of the clock by task code is \<open>clk k\<close>, and the
  \<open>k\<close>-th draw handed to a wrapped operation is \<open>rnd k\<close>; the \<open>world\<close> counts how
  many of each have been consumed. A draw is a rational in \<open>[0, 1)\<close>. The literals
  \<open>0.05\<close>, \<open>0.10\<close> and \<open>0.3\<close> that the source compares a draw with are doubles;
  each is modelled by the exact value of that double (the first two lie just above 1/20
  and 1/10, the third just below 3/10).
\<close>

type_synonym clock = "nat \<Rightarrow> int"
type_synonym rng = "nat \<Rightarrow> rat"

record world =
  ticks :: nat
  draws :: nat

definition Date_now :: "clock \<Rightarrow> world \<Rightarrow> int \<times> world" where
  "Date_now clk w = (clk (ticks w), w\<lparr>ticks := Suc (ticks w)\<rparr>)"

definition Math_random :: "rng \<Rightarrow> world \<Rightarrow> rat \<times> world" where
  "Math_random rnd w = (rnd (draws w), w\<lparr>draws := Suc (draws w)\<rparr>)"

definition double_0_05 :: rat where
  "double_0_05 = 3602879701896397 / 72057594037927936"

definition double_0_10 :: rat where
  "double_0_10 = 3602879701896397 / 36028797018963968"

definition double_0_3 :: rat where
  "double_0_3 = 5404319552844595 / 18014398509481984"

section \<open>The retry primitive\<close>

text \<open>
  \<open>retry.onThrow(fn, {maxAttempts, factor})\<close> is imported from the package
  \<open>@trigger.dev/sdk/v3\<close>; the repository holds only its call sites. Its contract: run
  \<open>fn\<close>; when it returns, return that value; when it throws, wait and run it again,
  until attempt number \<open>maxAttempts\<close> has thrown, and then rethrow that last error. It
  is handed no classifier and does not look at \<open>code\<close> or \<open>status\<close>; the only error
  it singles out is one named \<open>AbortTaskRunError\<close>, rethrown at once. The waits between
  attempts (\<open>factor\<close>) change no value of the model. The callback's state \<open>'s\<close> is
  whatever it mutates: a captured counter and the world.
\<close>

function onThrow_from ::
  "('s \<Rightarrow> (jserror + 'a) \<times> 's) \<Rightarrow> nat \<Rightarrow> nat \<Rightarrow> 's \<Rightarrow> (jserror + 'a) \<times> 's" where
  "onThrow_from fn maxAttempts attempt s =
     (if attempt \<le> maxAttempts then
        (case fn s of
           (Inr v, s') \<Rightarrow> (Inr v, s')
         | (Inl e, s') \<Rightarrow>
             if ename e = js ''AbortTaskRunError'' then (Inl e, s')
             else if maxAttempts \<le> attempt then (Inl e, s')
             else onThrow_from fn maxAttempts (Suc attempt) s')
      else (Inl (Error (js ''Max attempts reached'')), s))"
  by pat_completeness auto
termination
  by (relation "measure (\<lambda>(fn, maxAttempts, attempt, s). Suc maxAttempts - attempt)") auto

declare onThrow_from.simps [simp del]

definition onThrow ::
  "('s \<Rightarrow> (jserror + 'a) \<times> 's) \<Rightarrow> nat \<Rightarrow> 's \<Rightarrow> (jserror + 'a) \<times> 's" where
  "onThrow fn maxAttempts s = onThrow_from fn maxAttempts 1 s"

section \<open>Partial success: the batch processor\<close>

text \<open>
  The task \<open>agents.partial-success\<close> (and its copy \<open>testPartialSuccess\<close>). The
  operation wrapped for each item increments the captured counter \<open>attempts\<close>, draws
  one random number and throws \<open>TOKEN_LIMIT\<close> below 0.05, \<open>RATE_LIMIT\<close> below 0.10.
\<close>

record item_result =
  ok :: bool
  attempts :: nat
  reason :: "ustring option"

record batch_result =
  ps_ok :: bool
  okCount :: nat
  failedCount :: nat
  ps_durationMs :: int
  results :: "(ustring \<times> item_result) list"

definition item_op :: "rng \<Rightarrow> nat \<times> world \<Rightarrow> (jserror + unit) \<times> (nat \<times> world)" where
  "item_op rnd = (\<lambda>(n, w).
     let attempts' = n + 1;
         (r, w') = Math_random rnd w
     in if r < double_0_05 then
          (Inl (JSError (js ''Error'') (js ''Token limit'') (Some (js ''TOKEN_LIMIT'')) None),
           (attempts', w'))
        else if r < double_0_10 then
          (Inl (JSError (js ''Error'') (js ''Rate limited'') (Some (js ''RATE_LIMIT'')) None),
           (attempts', w'))
        else (Inr (), (attempts', w')))"

text \<open>The \<open>catch\<close> block's \<open>e?.code || e?.message\<close>: an absent or empty code is falsy.\<close>

definition code_or_message :: "jserror \<Rightarrow> ustring" where
  "code_or_message e =
     (case ecode e of Some c \<Rightarrow> if c \<noteq> [] then c else emessage e | None \<Rightarrow> emessage e)"

text \<open>One pass of the loop body, up to the value stored under the item's key.\<close>

definition process_item :: "rng \<Rightarrow> world \<Rightarrow> item_result \<times> world" where
  "process_item rnd w =
     (case onThrow (item_op rnd) 3 (0, w) of
        (Inr u, (n, w')) \<Rightarrow> (\<lparr>ok = True, attempts = n, reason = None\<rparr>, w')
      | (Inl e, (n, w')) \<Rightarrow>
          (\<lparr>ok = False, attempts = n, reason = Some (code_or_message e)\<rparr>, w'))"

text \<open>
  \<open>results\<close> is an object used as a dictionary. Its keys all start with \<open>item:\<close>, so
  they keep insertion order, and storing under a key already present replaces the value
  in place: an association list with \<open>AList.update\<close>.
\<close>

fun items_loop ::
  "rng \<Rightarrow> ustring list \<Rightarrow> (ustring \<times> item_result) list \<times> world
     \<Rightarrow> (ustring \<times> item_result) list \<times> world" where
  "items_loop rnd [] (res, w) = (res, w)"
| "items_loop rnd (i # ids) (res, w) =
     (let key = js ''item:'' @ i;
          (r, w') = process_item rnd w
      in items_loop rnd ids (AList.update key r res, w'))"

definition partialSuccess :: "clock \<Rightarrow> rng \<Rightarrow> ustring list \<Rightarrow> world \<Rightarrow> batch_result \<times> world" where
  "partialSuccess clk rnd items w0 =
     (let (start, w1) = Date_now clk w0;
          (res, w2) = items_loop rnd items ([], w1);
          n_ok = length (filter ok (map snd res));
          failed = length (map snd res) - n_ok;
          (fin, w3) = Date_now clk w2
      in (\<lparr>ps_ok = (failed = 0), okCount = n_ok, failedCount = failed,
           ps_durationMs = fin - start, results = res\<rparr>, w3))"

section \<open>Circuit breaker\<close>

text \<open>
  The task \<open>agents.circuit-breaker\<close> (and its copy \<open>testCircuitBreaker\<close>). The
  module-level variables \<open>consecutive\<close> and \<open>openedUntil\<close>, both initially 0, are the
  breaker; they outlive a run of the task. \<open>calls\<close> is taken to be an integer; the
  counters are far from the range where a double stops being exact.
\<close>

record breaker =
  consecutive :: nat
  openedUntil :: int

definition breaker0 :: breaker where
  "breaker0 = \<lparr>consecutive = 0, openedUntil = 0\<rparr>"

definition maxConsecutive :: nat where
  "maxConsecutive = 5"

record call_result =
  call_ok :: bool
  status :: "int option"

record cb_payload =
  calls :: int
  cooldownMs :: "int option"

record cb_report =
  cb_ok :: bool
  cb_attempts :: nat
  cb_okCount :: nat
  cb_failCount :: nat
  consecutivelyTripped :: bool
  openUntil :: "int option"
  cb_durationMs :: int

text \<open>The wrapped operation: one draw, a 502 below 0.3.\<close>

definition upstream :: "rng \<Rightarrow> world \<Rightarrow> (jserror + call_result) \<times> world" where
  "upstream rnd w =
     (let (r, w') = Math_random rnd w
      in if r < double_0_3 then
           (Inl (JSError (js ''Error'') (js ''Upstream 5xx'') None (Some 502)), w')
         else (Inr \<lparr>call_ok = True, status = Some 200\<rparr>, w'))"

text \<open>
  One iteration of the \<open>for\<close> loop: the result pushed, the breaker and the world after
  it. The first branch is the \<open>continue\<close>.
\<close>

definition breaker_call ::
  "clock \<Rightarrow> rng \<Rightarrow> int \<Rightarrow> breaker \<times> world \<Rightarrow> call_result \<times> breaker \<times> world" where
  "breaker_call clk rnd cooldown = (\<lambda>(b, w).
     let (now, w1) = Date_now clk w
     in if now < openedUntil b then (\<lparr>call_ok = False, status = Some 503\<rparr>, b, w1)
        else
          let (res, w2) = onThrow (upstream rnd) 2 w1;
              r = (case res of
                     Inr v \<Rightarrow> v
                   | Inl e \<Rightarrow>
                       \<lparr>call_ok = False,
                        status = Some (case estatus e of Some st \<Rightarrow> st | None \<Rightarrow> 500)\<rparr>);
              b1 = b\<lparr>consecutive := (if call_ok r then 0 else consecutive b + 1)\<rparr>
          in if maxConsecutive \<le> consecutive b1 then
               let (now2, w3) = Date_now clk w2
               in (r, b1\<lparr>openedUntil := now2 + cooldown\<rparr>, w3)
             else (r, b1, w2))"

text \<open>The state of the loop after \<open>n\<close> iterations.\<close>

fun calls_loop ::
  "clock \<Rightarrow> rng \<Rightarrow> int \<Rightarrow> nat \<Rightarrow> call_result list \<times> breaker \<times> world
     \<Rightarrow> call_result list \<times> breaker \<times> world" where
  "calls_loop clk rnd cooldown 0 st = st"
| "calls_loop clk rnd cooldown (Suc n) st =
     (let (rs, b, w) = calls_loop clk rnd cooldown n st;
          (r, b', w') = breaker_call clk rnd cooldown (b, w)
      in (rs @ [r], b', w'))"

definition circuitBreaker ::
  "clock \<Rightarrow> rng \<Rightarrow> cb_payload \<Rightarrow> breaker \<times> world \<Rightarrow> cb_report \<times> breaker \<times> world" where
  "circuitBreaker clk rnd payload = (\<lambda>(b0, w0).
     let (start, w1) = Date_now clk w0;
         cooldown = (case cooldownMs payload of Some c \<Rightarrow> c | None \<Rightarrow> 5000);
         (rs, b, w2) = calls_loop clk rnd cooldown (nat (calls payload)) ([], b0, w1);
         (fin, w3) = Date_now clk w2;
         n_ok = length (filter call_ok rs);
         n_fail = length rs - n_ok
     in (\<lparr>cb_ok = (n_fail = 0), cb_attempts = length rs, cb_okCount = n_ok,
          cb_failCount = n_fail,
          consecutivelyTripped = (maxConsecutive \<le> consecutive b),
          openUntil = (if openedUntil b = 0 then None else Some (openedUntil b)),
          cb_durationMs = fin - start\<rparr>, b, w3))"

section \<open>Human escalation\<close>

text \<open>
  The task \<open>agents.human-escalation\<close>. \<open>!payload.resumeToken\<close> holds for an absent
  token and for the empty string. The task keeps no state between invocations.
\<close>

record he_payload =
  data :: ustring
  resumeToken :: "ustring option"

datatype he_result =
    Escalation (he_ok: bool) (escalated: bool) (he_message: ustring)
               (he_resumeToken: ustring) (he_durationMs: int)
  | Resumption (he_ok: bool) (resumed: bool) (he_durationMs: int)

definition humanEscalation ::
  "clock \<Rightarrow> he_payload \<Rightarrow> world \<Rightarrow> (jserror + he_result) \<times> world" where
  "humanEscalation clk payload w0 =
     (let (start, w1) = Date_now clk w0
      in if resumeToken payload = None \<or> resumeToken payload = Some [] then
           let (fin, w2) = Date_now clk w1
           in (Inr (Escalation False True
                      (js ''Escalated for review. Re-run with resumeToken to continue.'')
                      (js ''RESUME-123'') (fin - start)), w2)
         else if resumeToken payload \<noteq> Some (js ''RESUME-123'') then
           (Inl (AbortTaskRunError (js ''Invalid resume token'')), w1)
         else
           let (fin, w2) = Date_now clk w1
           in (Inr (Resumption True True (fin - start)), w2))"

section \<open>Graceful degradation\<close>

text \<open>
  \<open>callLLM\<close>, the task \<open>agents.graceful-degradation\<close> and the standalone
  \<open>testGracefulDegradation\<close>. The environment variable \<open>LLM_MOCK\<close> is an optional
  string. A \<open>try\<close> whose body throws continues in its \<open>catch\<close>; what leaves the
  function is a value or an error.
\<close>

datatype tier = primary | secondary

definition callLLM :: "tier \<Rightarrow> ustring \<Rightarrow> bool \<Rightarrow> jserror + ustring" where
  "callLLM model prompt mock =
     (if mock then
        (if model = primary then
           Inl (JSError (js ''Error'') (js ''Primary down'') (Some (js ''PRIMARY_DOWN'')) None)
         else Inr (js ''fallback('' @ take 12 prompt @ js '')''))
      else Inl (Error (js ''Real LLM not implemented'')))"

record gd_result =
  gd_ok :: bool
  model :: ustring
  degraded :: "bool option"
  gd_output :: ustring
  gd_durationMs :: int

text \<open>The ellipsis that ends the template, U+2026, is one code unit.\<close>

definition ellipsis :: ustring where
  "ellipsis = [8230]"

definition gracefulDegradation ::
  "clock \<Rightarrow> ustring option \<Rightarrow> ustring \<Rightarrow> world \<Rightarrow> (jserror + gd_result) \<times> world" where
  "gracefulDegradation clk LLM_MOCK prompt w0 =
     (let (start, w1) = Date_now clk w0;
          mock = (LLM_MOCK = Some (js ''1''))
      in case callLLM primary prompt mock of
           Inr a \<Rightarrow>
             let (fin, w2) = Date_now clk w1
             in (Inr \<lparr>gd_ok = True, model = js ''primary'', degraded = None, gd_output = a,
                      gd_durationMs = fin - start\<rparr>, w2)
         | Inl e1 \<Rightarrow>
             (case callLLM secondary prompt mock of
                Inr b \<Rightarrow>
                  let (fin, w2) = Date_now clk w1
                  in (Inr \<lparr>gd_ok = True, model = js ''secondary'', degraded = Some True,
                           gd_output = b, gd_durationMs = fin - start\<rparr>, w2)
              | Inl e2 \<Rightarrow>
                  let (fin, w2) = Date_now clk w1
                  in (Inr \<lparr>gd_ok = True, model = js ''template'', degraded = Some True,
                           gd_output = js ''We're experiencing issues. Draft: '' @ take 20 prompt
                                    @ ellipsis,
                           gd_durationMs = fin - start\<rparr>, w2)))"

definition testGracefulDegradation ::
  "clock \<Rightarrow> ustring option \<Rightarrow> ustring \<Rightarrow> world \<Rightarrow> (jserror + gd_result) \<times> world" where
  "testGracefulDegradation clk LLM_MOCK prompt w0 =
     (let (start, w1) = Date_now clk w0;
          mock = (LLM_MOCK \<noteq> Some (js ''0''))
      in case callLLM primary prompt mock of
           Inr a \<Rightarrow>
             let (fin, w2) = Date_now clk w1
             in (Inr \<lparr>gd_ok = True, model = js ''primary'', degraded = None, gd_output = a,
                      gd_durationMs = fin - start\<rparr>, w2)
         | Inl e1 \<Rightarrow>
             (case callLLM secondary prompt mock of
                Inr b \<Rightarrow>
                  let (fin, w2) = Date_now clk w1
                  in (Inr \<lparr>gd_ok = True, model = js ''secondary'', degraded = Some True,
                           gd_output = b, gd_durationMs = fin - start\<rparr>, w2)
              | Inl e2 \<Rightarrow>
                  let (fin, w2) = Date_now clk w1
                  in (Inr \<lparr>gd_ok = True, model = js ''template'', degraded = Some True,
                           gd_output = js ''We're experiencing issues. Draft: '' @ take 20 prompt
                                    @ ellipsis,
                           gd_durationMs = fin - start\<rparr>, w2)))"

section \<open>Notions used in the statements\<close>

text \<open>
  The key under which an item's result is stored, and the result stored for an item.
\<close>

definition item_key :: "ustring \<Rightarrow> ustring" where
  "item_key i = js ''item:'' @ i"

definition lookup :: "batch_result \<Rightarrow> ustring \<Rightarrow> item_result option" where
  "lookup out i = map_of (results out) (item_key i)"

text \<open>
  What the three draws that an item's operation may see make of the item, and what a
  well-formed item result is.
\<close>

definition fail_reason :: "rat \<Rightarrow> ustring" where
  "fail_reason r = (if r < double_0_05 then js ''TOKEN_LIMIT'' else js ''RATE_LIMIT'')"

definition item_outcome :: "rat \<Rightarrow> rat \<Rightarrow> rat \<Rightarrow> item_result" where
  "item_outcome r0 r1 r2 =
     (if double_0_10 \<le> r0 then \<lparr>ok = True, attempts = 1, reason = None\<rparr>
      else if double_0_10 \<le> r1 then \<lparr>ok = True, attempts = 2, reason = None\<rparr>
      else if double_0_10 \<le> r2 then \<lparr>ok = True, attempts = 3, reason = None\<rparr>
      else \<lparr>ok = False, attempts = 3, reason = Some (fail_reason r2)\<rparr>)"

definition good :: "item_result \<Rightarrow> bool" where
  "good r \<longleftrightarrow> (ok r \<longleftrightarrow> reason r = None) \<and> 1 \<le> attempts r \<and> attempts r \<le> 3"

text \<open>
  The three results a call of the breaker can push, and what a failed call does to the
  breaker and the world: the count goes up, and at the threshold the clock is read once
  more and \<open>openedUntil\<close> is set.
\<close>

definition rejected :: call_result where
  "rejected = \<lparr>call_ok = False, status = Some 503\<rparr>"

definition failed :: call_result where
  "failed = \<lparr>call_ok = False, status = Some 502\<rparr>"

definition succeeded :: call_result where
  "succeeded = \<lparr>call_ok = True, status = Some 200\<rparr>"

definition trip :: "clock \<Rightarrow> int \<Rightarrow> breaker \<Rightarrow> world \<Rightarrow> breaker \<times> world" where
  "trip clk cooldown b w =
     (if maxConsecutive \<le> Suc (consecutive b) then
        (\<lparr>consecutive = Suc (consecutive b), openedUntil = clk (Suc (ticks w)) + cooldown\<rparr>,
         \<lparr>ticks = ticks w + 2, draws = draws w + 2\<rparr>)
      else (\<lparr>consecutive = Suc (consecutive b), openedUntil = openedUntil b\<rparr>,
            \<lparr>ticks = ticks w + 1, draws = draws w + 2\<rparr>))"

text \<open>The four fields of a degradation result that do not depend on the clock.\<close>

definition answer :: "(jserror + gd_result) \<times> world \<Rightarrow> (bool \<times> ustring \<times> bool option \<times> ustring) option" where
  "answer out = (case fst out of Inl e \<Rightarrow> None
                 | Inr r \<Rightarrow> Some (gd_ok r, model r, degraded r, gd_output r))"

text \<open>
  Concrete environments: a clock that advances by a fixed step at every reading, and a
  random source that hands out a list of draws and then a constant.
\<close>

definition ticking :: "int \<Rightarrow> clock" where
  "ticking step k = step * int k"

definition draws_from :: "rat list \<Rightarrow> rat \<Rightarrow> rng" where
  "draws_from ds r k = (if k < length ds then ds ! k else r)"

section \<open>Unfolding the retry loop\<close>

lemma onThrow_2:
  "onThrow fn 2 s =
     (case fn s of
        (Inr v, s1) \<Rightarrow> (Inr v, s1)
      | (Inl e, s1) \<Rightarrow> if ename e = js ''AbortTaskRunError'' then (Inl e, s1) else fn s1)"
  unfolding onThrow_def
  by (subst onThrow_from.simps, subst onThrow_from.simps)
     (auto split: prod.splits sum.splits)

lemma onThrow_3:
  "onThrow fn 3 s =
     (case fn s of
        (Inr v, s1) \<Rightarrow> (Inr v, s1)
      | (Inl e, s1) \<Rightarrow>
          if ename e = js ''AbortTaskRunError'' then (Inl e, s1)
          else (case fn s1 of
                  (Inr v, s2) \<Rightarrow> (Inr v, s2)
                | (Inl e', s2) \<Rightarrow> if ename e' = js ''AbortTaskRunError'' then (Inl e', s2) else fn s2))"
  unfolding onThrow_def
  by (subst onThrow_from.simps, subst onThrow_from.simps, subst onThrow_from.simps)
     (auto split: prod.splits sum.splits)

section \<open>The batch processor\<close>

lemma item_op_eq:
  "item_op rnd (n, w) =
     (if rnd (draws w) < double_0_05 then
        (Inl (JSError (js ''Error'') (js ''Token limit'') (Some (js ''TOKEN_LIMIT'')) None),
         (Suc n, w\<lparr>draws := Suc (draws w)\<rparr>))
      else if rnd (draws w) < double_0_10 then
        (Inl (JSError (js ''Error'') (js ''Rate limited'') (Some (js ''RATE_LIMIT'')) None),
         (Suc n, w\<lparr>draws := Suc (draws w)\<rparr>))
      else (Inr (), (Suc n, w\<lparr>draws := Suc (draws w)\<rparr>)))"
  by (simp add: item_op_def Math_random_def)

lemma process_item_eq:
  "process_item rnd w =
     (item_outcome (rnd (draws w)) (rnd (draws w + 1)) (rnd (draws w + 2)),
      w\<lparr>draws := draws w + attempts (item_outcome (rnd (draws w)) (rnd (draws w + 1)) (rnd (draws w + 2)))\<rparr>)"
  by (simp add: process_item_def onThrow_3 item_op_eq js_def code_or_message_def fail_reason_def
        item_outcome_def Let_def double_0_05_def double_0_10_def)

lemma item_outcome_good:
  "(ok (item_outcome r0 r1 r2) \<longleftrightarrow> reason (item_outcome r0 r1 r2) = None) \<and>
   1 \<le> attempts (item_outcome r0 r1 r2) \<and> attempts (item_outcome r0 r1 r2) \<le> 3"
  by (simp add: item_outcome_def)

lemma process_item_good:
  "process_item rnd w = (r, w') \<Longrightarrow>
     (ok r \<longleftrightarrow> reason r = None) \<and> 1 \<le> attempts r \<and> attempts r \<le> 3 \<and>
     draws w' = draws w + attempts r \<and> ticks w' = ticks w"
  using item_outcome_good [of "rnd (draws w)" "rnd (draws w + 1)" "rnd (draws w + 2)"]
  by (auto simp add: process_item_eq)

lemma items_loop_append:
  "items_loop rnd (xs @ ys) st = items_loop rnd ys (items_loop rnd xs st)"
proof (induction xs arbitrary: st)
  case Nil
  show ?case by (cases st) simp
next
  case (Cons x xs)
  obtain res w where st: "st = (res, w)" by (cases st)
  show ?case by (simp add: st Cons.IH split: prod.splits)
qed

lemma items_loop_other_key:
  "k \<notin> item_key ` set xs \<Longrightarrow> map_of (fst (items_loop rnd xs (res, w))) k = map_of res k"
  by (induction xs arbitrary: res w)
     (auto simp add: item_key_def update_conv' split: prod.splits)

lemma items_loop_draws:
  "draws w + length xs \<le> draws (snd (items_loop rnd xs (res, w)))"
proof (induction xs arbitrary: res w)
  case Nil
  then show ?case by simp
next
  case (Cons x xs)
  obtain r w1 where p: "process_item rnd w = (r, w1)" by (cases "process_item rnd w")
  from process_item_good [OF p] have "draws w + 1 \<le> draws w1" by simp
  moreover have "draws w1 + length xs \<le> draws (snd (items_loop rnd xs (AList.update (js ''item:'' @ x) r res, w1)))"
    by (rule Cons.IH)
  ultimately show ?case using p by simp
qed

lemma items_loop_good:
  "\<forall>k r. map_of res k = Some r \<longrightarrow> good r \<Longrightarrow>
   map_of (fst (items_loop rnd xs (res, w))) k = Some r \<Longrightarrow> good r"
proof (induction xs arbitrary: res w)
  case Nil
  then show ?case by simp
next
  case (Cons x xs)
  obtain p w1 where p: "process_item rnd w = (p, w1)" by (cases "process_item rnd w")
  from process_item_good [OF p] have "good p" by (simp add: good_def)
  with Cons.prems(1) have "\<forall>k r. map_of (AList.update (js ''item:'' @ x) p res) k = Some r \<longrightarrow> good r"
    by (simp add: update_conv')
  from Cons.IH [OF this] Cons.prems(2) p show ?case by simp
qed

lemma items_loop_dom:
  "dom (map_of (fst (items_loop rnd xs (res, w)))) = dom (map_of res) \<union> item_key ` set xs"
proof (induction xs arbitrary: res w)
  case Nil
  then show ?case by simp
next
  case (Cons x xs)
  obtain p w1 where p: "process_item rnd w = (p, w1)" by (cases "process_item rnd w")
  have "dom (map_of (fst (items_loop rnd xs (AList.update (item_key x) p res, w1)))) =
          dom (map_of (AList.update (item_key x) p res)) \<union> item_key ` set xs"
    by (rule Cons.IH)
  then show ?case using p by (simp add: item_key_def update_conv')
qed

lemma items_loop_distinct:
  "distinct (map fst res) \<Longrightarrow> distinct (map fst (fst (items_loop rnd xs (res, w))))"
  by (induction xs arbitrary: res w) (auto simp add: distinct_update split: prod.splits)

lemma all_ok_count:
  "length xs \<le> length (filter P xs) \<longleftrightarrow> (\<forall>x\<in>set xs. P x)"
proof
  assume "length xs \<le> length (filter P xs)"
  then have "length (filter P xs) = length xs"
    using length_filter_le [of P xs] by simp
  then show "\<forall>x\<in>set xs. P x"
    using length_filter_less [of _ xs P] by fastforce
next
  assume "\<forall>x\<in>set xs. P x"
  then show "length xs \<le> length (filter P xs)" by simp
qed

lemma partialSuccess_eq:
  "partialSuccess clk rnd items w =
     (let (res, w2) = items_loop rnd items ([], w\<lparr>ticks := Suc (ticks w)\<rparr>)
      in (\<lparr>ps_ok = (length res - length (filter (ok \<circ> snd) res) = 0),
           okCount = length (filter (ok \<circ> snd) res),
           failedCount = length res - length (filter (ok \<circ> snd) res),
           ps_durationMs = clk (ticks w2) - clk (ticks w), results = res\<rparr>,
          w2\<lparr>ticks := Suc (ticks w2)\<rparr>))"
  by (simp add: partialSuccess_def Date_now_def Let_def split: prod.splits)

lemma results_partialSuccess:
  "results (fst (partialSuccess clk rnd items w)) =
     fst (items_loop rnd items ([], w\<lparr>ticks := Suc (ticks w)\<rparr>))"
  by (simp add: partialSuccess_eq split: prod.splits)

lemma draws_partialSuccess:
  "draws (snd (partialSuccess clk rnd items w)) =
     draws (snd (items_loop rnd items ([], w\<lparr>ticks := Suc (ticks w)\<rparr>)))"
  by (simp add: partialSuccess_eq split: prod.splits)

lemma ps_ok_partialSuccess:
  "ps_ok (fst (partialSuccess clk rnd items w)) \<longleftrightarrow>
     (\<forall>p\<in>set (results (fst (partialSuccess clk rnd items w))). ok (snd p))"
  by (cases "items_loop rnd items ([], w\<lparr>ticks := Suc (ticks w)\<rparr>)")
     (simp add: partialSuccess_eq all_ok_count)

lemma item_key_inj: "item_key i = item_key j \<longleftrightarrow> i = j"
  by (simp add: item_key_def)

lemma lookup_listed:
  assumes "i \<in> set items"
  shows "\<exists>r. lookup (fst (partialSuccess clk rnd items w)) i = Some r \<and> good r"
proof -
  let ?res = "fst (items_loop rnd items ([], w\<lparr>ticks := Suc (ticks w)\<rparr>))"
  from assms have "item_key i \<in> dom (map_of ?res)"
    by (simp add: items_loop_dom)
  then obtain r where r: "map_of ?res (item_key i) = Some r" by blast
  have "good r"
    by (rule items_loop_good [OF _ r]) simp
  with r show ?thesis by (simp add: lookup_def results_partialSuccess)
qed

lemma entries_are_lookups:
  assumes "(k, r) \<in> set (results (fst (partialSuccess clk rnd items w)))"
  shows "\<exists>i\<in>set items. k = item_key i \<and> lookup (fst (partialSuccess clk rnd items w)) i = Some r"
proof -
  let ?res = "fst (items_loop rnd items ([], w\<lparr>ticks := Suc (ticks w)\<rparr>))"
  from assms have in_res: "(k, r) \<in> set ?res" by (simp add: results_partialSuccess)
  have "distinct (map fst ?res)" by (rule items_loop_distinct) simp
  with in_res have m: "map_of ?res k = Some r" by simp
  then have "k \<in> dom (map_of ?res)" by blast
  then have "k \<in> item_key ` set items" by (simp add: items_loop_dom)
  with m show ?thesis by (auto simp add: lookup_def results_partialSuccess)
qed

lemma ps_ok_per_item:
  "ps_ok (fst (partialSuccess clk rnd items w)) \<longleftrightarrow>
     (\<forall>i\<in>set items. \<exists>r. lookup (fst (partialSuccess clk rnd items w)) i = Some r \<and> ok r)"
proof
  assume a: "ps_ok (fst (partialSuccess clk rnd items w))"
  show "\<forall>i\<in>set items. \<exists>r. lookup (fst (partialSuccess clk rnd items w)) i = Some r \<and> ok r"
  proof
    fix i assume "i \<in> set items"
    then obtain r where r: "lookup (fst (partialSuccess clk rnd items w)) i = Some r"
      using lookup_listed by blast
    then have "(item_key i, r) \<in> set (results (fst (partialSuccess clk rnd items w)))"
      by (simp add: lookup_def map_of_SomeD)
    with a have "ok r" by (auto simp add: ps_ok_partialSuccess)
    with r show "\<exists>r. lookup (fst (partialSuccess clk rnd items w)) i = Some r \<and> ok r" by blast
  qed
next
  assume a: "\<forall>i\<in>set items. \<exists>r. lookup (fst (partialSuccess clk rnd items w)) i = Some r \<and> ok r"
  have "ok (snd p)" if "p \<in> set (results (fst (partialSuccess clk rnd items w)))" for p
  proof -
    from that have "(fst p, snd p) \<in> set (results (fst (partialSuccess clk rnd items w)))" by simp
    from entries_are_lookups [OF this] a show ?thesis by fastforce
  qed
  then show "ps_ok (fst (partialSuccess clk rnd items w))"
    by (simp add: ps_ok_partialSuccess)
qed

lemma lookup_last_occurrence:
  assumes "i \<notin> set ys"
  shows "lookup (fst (partialSuccess clk rnd (xs @ i # ys) w)) i =
           Some (item_outcome (rnd (draws (snd (partialSuccess clk rnd xs w))))
                              (rnd (draws (snd (partialSuccess clk rnd xs w)) + 1))
                              (rnd (draws (snd (partialSuccess clk rnd xs w)) + 2)))"
proof -
  let ?w1 = "w\<lparr>ticks := Suc (ticks w)\<rparr>"
  obtain resx wx where x: "items_loop rnd xs ([], ?w1) = (resx, wx)"
    by (cases "items_loop rnd xs ([], ?w1)")
  let ?p = "item_outcome (rnd (draws wx)) (rnd (draws wx + 1)) (rnd (draws wx + 2))"
  from assms have "item_key i \<notin> item_key ` set ys" by (auto simp add: item_key_inj)
  then have "map_of (fst (items_loop rnd ys (AList.update (item_key i) ?p resx,
                 wx\<lparr>draws := draws wx + attempts ?p\<rparr>))) (item_key i)
             = map_of (AList.update (item_key i) ?p resx) (item_key i)"
    by (rule items_loop_other_key)
  then have "map_of (fst (items_loop rnd (xs @ i # ys) ([], ?w1))) (item_key i) = Some ?p"
    by (simp add: items_loop_append x process_item_eq update_conv' item_key_def)
  moreover have "draws (snd (partialSuccess clk rnd xs w)) = draws wx"
    by (simp add: draws_partialSuccess x)
  ultimately show ?thesis by (simp add: lookup_def results_partialSuccess)
qed

lemma draws_after_item:
  "draws (snd (partialSuccess clk rnd (xs @ [i]) w)) =
     draws (snd (partialSuccess clk rnd xs w)) +
     attempts (item_outcome (rnd (draws (snd (partialSuccess clk rnd xs w))))
                            (rnd (draws (snd (partialSuccess clk rnd xs w)) + 1))
                            (rnd (draws (snd (partialSuccess clk rnd xs w)) + 2)))"
proof -
  obtain resx wx where x: "items_loop rnd xs ([], w\<lparr>ticks := Suc (ticks w)\<rparr>) = (resx, wx)"
    by (cases "items_loop rnd xs ([], w\<lparr>ticks := Suc (ticks w)\<rparr>)")
  show ?thesis
    by (simp add: draws_partialSuccess items_loop_append x process_item_eq)
qed

lemma items_loop_shift:
  "\<forall>k. rnd' (draws w' + k) = rnd (draws w + k) \<Longrightarrow>
     fst (items_loop rnd' xs (res, w')) = fst (items_loop rnd xs (res, w))"
proof (induction xs arbitrary: res w w')
  case Nil
  then show ?case by simp
next
  case (Cons x xs)
  let ?p = "item_outcome (rnd (draws w)) (rnd (draws w + 1)) (rnd (draws w + 2))"
  from Cons.prems have same: "rnd' (draws w') = rnd (draws w)"
      "rnd' (Suc (draws w')) = rnd (Suc (draws w))"
      "rnd' (Suc (Suc (draws w'))) = rnd (Suc (Suc (draws w)))"
    using Cons.prems [THEN spec, of 0] Cons.prems [THEN spec, of 1] Cons.prems [THEN spec, of 2]
    by simp_all
  from Cons.prems
  have "\<forall>k. rnd' (draws (w'\<lparr>draws := draws w' + attempts ?p\<rparr>) + k) =
            rnd (draws (w\<lparr>draws := draws w + attempts ?p\<rparr>) + k)"
    by (simp add: add.assoc)
  from Cons.IH [OF this] show ?case
    by (simp add: process_item_eq same)
qed

text \<open>
  C1. The claim: an operation that raises the fatal \<open>TOKEN_LIMIT\<close> error is invoked
  exactly once by the retry wrapper of the batch processor. On the code, a batch of the
  single item \<open>a\<close> whose operation always draws 0.01 (below 0.05, so \<open>TOKEN_LIMIT\<close>
  every time) is invoked three times: the item's \<open>attempts\<close> is 3 and three draws are
  consumed. The \<open>catch\<close> that the source comments with "For token limits, don't retry"
  runs only after \<open>retry.onThrow\<close> has used up \<open>maxAttempts\<close>.
\<close>

theorem token_limit_is_retried:
  "partialSuccess int (draws_from [] (1 / 100)) [js ''a''] \<lparr>ticks = 0, draws = 0\<rparr> =
     (\<lparr>ps_ok = False, okCount = 0, failedCount = 1, ps_durationMs = 1,
       results = [(js ''item:a'',
                   \<lparr>ok = False, attempts = 3, reason = Some (js ''TOKEN_LIMIT'')\<rparr>)]\<rparr>,
      \<lparr>ticks = 2, draws = 3\<rparr>)"
  by (simp add: partialSuccess_def Date_now_def process_item_def onThrow_3 item_op_eq
                code_or_message_def draws_from_def double_0_05_def double_0_10_def double_0_3_def js_def)

text \<open>
  C6. For every batch: every listed item has a result under its key, with a success flag,
  between one and three attempts, and a failure reason exactly when it failed; the
  overall \<open>ok\<close> holds iff every item's result is a success; and an item is not affected
  by the other items of the batch: its result (for its last occurrence \<open>i\<close> in
  \<open>xs @ i # ys\<close>) is the result of the batch made of that item alone, run at any time,
  in which its operation sees the same three draws as it saw in the full batch, after the
  draws used up by \<open>xs\<close>. Applied to the full batch and to the batch without its
  failing items, this gives the same result for an item in both, whenever its operation
  sees the same draws in both. The result itself is fixed by those draws, the first of
  them at position \<open>d\<close>: the operation runs until a draw is not below 0.10, three
  times at most; \<open>attempts\<close> is the number of times it ran, which is the number of
  draws the item used up; and the reason of a failure is the code of the error thrown at
  the third attempt, \<open>TOKEN_LIMIT\<close> for a draw below 0.05 and \<open>RATE_LIMIT\<close>
  otherwise.
\<close>

theorem batch_isolation:
  "(\<forall>i\<in>set items. \<exists>r. lookup (fst (partialSuccess clk rnd items w)) i = Some r \<and>
        (ok r \<longleftrightarrow> reason r = None) \<and> 1 \<le> attempts r \<and> attempts r \<le> 3) \<and>
   (ps_ok (fst (partialSuccess clk rnd items w)) \<longleftrightarrow>
      (\<forall>i\<in>set items. \<exists>r. lookup (fst (partialSuccess clk rnd items w)) i = Some r \<and> ok r)) \<and>
   (items = xs @ i # ys \<and> i \<notin> set ys \<and>
    (\<forall>k<3. rnd' (draws v + k) = rnd (draws (snd (partialSuccess clk rnd xs w)) + k))
      \<longrightarrow> lookup (fst (partialSuccess clk rnd items w)) i =
          lookup (fst (partialSuccess clk' rnd' [i] v)) i) \<and>
   (items = xs @ i # ys \<and> i \<notin> set ys \<and> d = draws (snd (partialSuccess clk rnd xs w))
      \<longrightarrow> (\<exists>r. lookup (fst (partialSuccess clk rnd items w)) i = Some r \<and>
            draws (snd (partialSuccess clk rnd (xs @ [i]) w)) = d + attempts r \<and>
            r = (if double_0_10 \<le> rnd d then \<lparr>ok = True, attempts = 1, reason = None\<rparr>
                 else if double_0_10 \<le> rnd (d + 1) then
                   \<lparr>ok = True, attempts = 2, reason = None\<rparr>
                 else if double_0_10 \<le> rnd (d + 2) then
                   \<lparr>ok = True, attempts = 3, reason = None\<rparr>
                 else \<lparr>ok = False, attempts = 3,
                       reason = Some (if rnd (d + 2) < double_0_05 then js ''TOKEN_LIMIT''
                                      else js ''RATE_LIMIT'')\<rparr>)))"
proof (intro conjI impI ballI)
  fix j assume "j \<in> set items"
  from lookup_listed [OF this]
  show "\<exists>r. lookup (fst (partialSuccess clk rnd items w)) j = Some r \<and>
        (ok r \<longleftrightarrow> reason r = None) \<and> 1 \<le> attempts r \<and> attempts r \<le> 3"
    by (simp add: good_def)
next
  show "ps_ok (fst (partialSuccess clk rnd items w)) \<longleftrightarrow>
      (\<forall>i\<in>set items. \<exists>r. lookup (fst (partialSuccess clk rnd items w)) i = Some r \<and> ok r)"
    by (rule ps_ok_per_item)
next
  assume a: "items = xs @ i # ys \<and> i \<notin> set ys \<and>
    (\<forall>k<3. rnd' (draws v + k) = rnd (draws (snd (partialSuccess clk rnd xs w)) + k))"
  let ?d = "draws (snd (partialSuccess clk rnd xs w))"
  from a have b: "\<forall>k<3. rnd' (draws v + k) = rnd (?d + k)" by blast
  have same: "rnd' (draws v) = rnd ?d" "rnd' (Suc (draws v)) = rnd (Suc ?d)"
      "rnd' (Suc (Suc (draws v))) = rnd (Suc (Suc ?d))"
    using b [THEN spec, of 0] b [THEN spec, of 1] b [THEN spec, of 2] by simp_all
  have "lookup (fst (partialSuccess clk' rnd' ([] @ i # []) v)) i =
          Some (item_outcome (rnd' (draws v)) (rnd' (draws v + 1)) (rnd' (draws v + 2)))"
    by (subst lookup_last_occurrence) (simp_all add: draws_partialSuccess)
  moreover from a have "lookup (fst (partialSuccess clk rnd items w)) i =
          Some (item_outcome (rnd ?d) (rnd (?d + 1)) (rnd (?d + 2)))"
    by (simp add: lookup_last_occurrence)
  ultimately show "lookup (fst (partialSuccess clk rnd items w)) i =
          lookup (fst (partialSuccess clk' rnd' [i] v)) i"
    by (simp add: same)
next
  assume a: "items = xs @ i # ys \<and> i \<notin> set ys \<and>
    d = draws (snd (partialSuccess clk rnd xs w))"
  let ?r = "item_outcome (rnd d) (rnd (d + 1)) (rnd (d + 2))"
  from a have l: "lookup (fst (partialSuccess clk rnd items w)) i = Some ?r"
    by (simp add: lookup_last_occurrence)
  from a have c: "draws (snd (partialSuccess clk rnd (xs @ [i]) w)) = d + attempts ?r"
    by (simp add: draws_after_item)
  have e: "?r = (if double_0_10 \<le> rnd d then \<lparr>ok = True, attempts = 1, reason = None\<rparr>
                 else if double_0_10 \<le> rnd (d + 1) then
                   \<lparr>ok = True, attempts = 2, reason = None\<rparr>
                 else if double_0_10 \<le> rnd (d + 2) then
                   \<lparr>ok = True, attempts = 3, reason = None\<rparr>
                 else \<lparr>ok = False, attempts = 3,
                       reason = Some (if rnd (d + 2) < double_0_05 then js ''TOKEN_LIMIT''
                                      else js ''RATE_LIMIT'')\<rparr>)"
    by (simp add: item_outcome_def fail_reason_def)
  from l c e
  show "\<exists>r. lookup (fst (partialSuccess clk rnd items w)) i = Some r \<and>
            draws (snd (partialSuccess clk rnd (xs @ [i]) w)) = d + attempts r \<and>
            r = (if double_0_10 \<le> rnd d then \<lparr>ok = True, attempts = 1, reason = None\<rparr>
                 else if double_0_10 \<le> rnd (d + 1) then
                   \<lparr>ok = True, attempts = 2, reason = None\<rparr>
                 else if double_0_10 \<le> rnd (d + 2) then
                   \<lparr>ok = True, attempts = 3, reason = None\<rparr>
                 else \<lparr>ok = False, attempts = 3,
                       reason = Some (if rnd (d + 2) < double_0_05 then js ''TOKEN_LIMIT''
                                      else js ''RATE_LIMIT'')\<rparr>)"
    by (intro exI [of _ ?r]) simp
qed

lemma batch_a_b:
  "partialSuccess int (draws_from [0, 0, 0] (1 / 2)) [js ''a'', js ''b''] \<lparr>ticks = 0, draws = 0\<rparr> =
     (\<lparr>ps_ok = False, okCount = 1, failedCount = 1, ps_durationMs = 1,
       results = [(js ''item:a'', \<lparr>ok = False, attempts = 3, reason = Some (js ''TOKEN_LIMIT'')\<rparr>),
                  (js ''item:b'', \<lparr>ok = True, attempts = 1, reason = None\<rparr>)]\<rparr>,
      \<lparr>ticks = 2, draws = 4\<rparr>)"
  by (simp add: partialSuccess_eq process_item_eq item_outcome_def fail_reason_def draws_from_def double_0_05_def double_0_10_def double_0_3_def js_def)

text \<open>
  C6 at a batch \<open>[a, b]\<close> in which \<open>a\<close> fails (three draws of 0) and \<open>b\<close> succeeds.
\<close>

theorem batch_isolation_witness:
  "[js ''a'', js ''b''] = [js ''a''] @ js ''b'' # [] \<and> js ''b'' \<notin> set [] \<and>
   draws (snd (partialSuccess int (draws_from [0, 0, 0] (1 / 2)) [js ''a'']
                 \<lparr>ticks = 0, draws = 0\<rparr>)) = 3 \<and>
   draws_from [] (1 / 2) 0 = draws_from [0, 0, 0] (1 / 2) 3 \<and>
   draws_from [] (1 / 2) 1 = draws_from [0, 0, 0] (1 / 2) 4 \<and>
   draws_from [] (1 / 2) 2 = draws_from [0, 0, 0] (1 / 2) 5 \<and>
   lookup (fst (partialSuccess int (draws_from [0, 0, 0] (1 / 2)) [js ''a'', js ''b'']
                  \<lparr>ticks = 0, draws = 0\<rparr>)) (js ''a'') =
     Some \<lparr>ok = False, attempts = 3, reason = Some (js ''TOKEN_LIMIT'')\<rparr> \<and>
   lookup (fst (partialSuccess int (draws_from [0, 0, 0] (1 / 2)) [js ''a'', js ''b'']
                  \<lparr>ticks = 0, draws = 0\<rparr>)) (js ''b'') =
     Some \<lparr>ok = True, attempts = 1, reason = None\<rparr> \<and>
   lookup (fst (partialSuccess int (draws_from [] (1 / 2)) [js ''b''] \<lparr>ticks = 0, draws = 0\<rparr>))
       (js ''b'') = Some \<lparr>ok = True, attempts = 1, reason = None\<rparr> \<and>
   draws (snd (partialSuccess int (draws_from [0, 0, 0] (1 / 2)) ([js ''a''] @ [js ''b''])
                 \<lparr>ticks = 0, draws = 0\<rparr>)) =
     3 + attempts \<lparr>ok = True, attempts = 1, reason = None\<rparr> \<and>
   \<not> ps_ok (fst (partialSuccess int (draws_from [0, 0, 0] (1 / 2)) [js ''a'', js ''b'']
                  \<lparr>ticks = 0, draws = 0\<rparr>))"
proof -
  have h: "\<forall>k<3. draws_from [] (1 / 2) (draws \<lparr>ticks = 0, draws = 0\<rparr> + k) =
           draws_from [0, 0, 0] (1 / 2)
             (draws (snd (partialSuccess int (draws_from [0, 0, 0] (1 / 2)) [js ''a'']
                            \<lparr>ticks = 0, draws = 0\<rparr>)) + k)"
    by (simp add: partialSuccess_eq process_item_eq item_outcome_def draws_from_def double_0_05_def double_0_10_def double_0_3_def)
  have l: "lookup (fst (partialSuccess int (draws_from [0, 0, 0] (1 / 2)) [js ''a'', js ''b'']
                  \<lparr>ticks = 0, draws = 0\<rparr>)) (js ''a'') =
     Some \<lparr>ok = False, attempts = 3, reason = Some (js ''TOKEN_LIMIT'')\<rparr>"
       "lookup (fst (partialSuccess int (draws_from [0, 0, 0] (1 / 2)) [js ''a'', js ''b'']
                  \<lparr>ticks = 0, draws = 0\<rparr>)) (js ''b'') =
     Some \<lparr>ok = True, attempts = 1, reason = None\<rparr>"
    unfolding batch_a_b lookup_def item_key_def by (simp_all add: js_def)
  from batch_isolation [of "[js ''a'', js ''b'']" int "draws_from [0, 0, 0] (1 / 2)"
         "\<lparr>ticks = 0, draws = 0\<rparr>" "[js ''a'']" "js ''b''" "[]" "draws_from [] (1 / 2)"
         "\<lparr>ticks = 0, draws = 0\<rparr>" int 3] h l
  show ?thesis
    by (simp add: batch_a_b draws_from_def double_0_05_def double_0_10_def double_0_3_def)
       (simp add: partialSuccess_eq process_item_eq item_outcome_def draws_from_def double_0_05_def double_0_10_def double_0_3_def)
qed

text \<open>
  C3, as stated, fails. The claim: re-running the batch returns, for an item already
  finalized, the same result without invoking its operation again. Here item \<open>a\<close>
  succeeds at the first attempt in the first run; the second run, started in the world
  the first one left, invokes its operation three more times (draws 1 to 3) and returns a
  failure.
\<close>

theorem rerun_differs:
  "partialSuccess int (draws_from [1 / 2] (1 / 100)) [js ''a''] \<lparr>ticks = 0, draws = 0\<rparr> =
     (\<lparr>ps_ok = True, okCount = 1, failedCount = 0, ps_durationMs = 1,
       results = [(js ''item:a'', \<lparr>ok = True, attempts = 1, reason = None\<rparr>)]\<rparr>,
      \<lparr>ticks = 2, draws = 1\<rparr>) \<and>
   partialSuccess int (draws_from [1 / 2] (1 / 100)) [js ''a''] \<lparr>ticks = 2, draws = 1\<rparr> =
     (\<lparr>ps_ok = False, okCount = 0, failedCount = 1, ps_durationMs = 1,
       results = [(js ''item:a'',
                   \<lparr>ok = False, attempts = 3, reason = Some (js ''TOKEN_LIMIT'')\<rparr>)]\<rparr>,
      \<lparr>ticks = 4, draws = 4\<rparr>)"
  by (simp add: partialSuccess_eq process_item_eq item_outcome_def fail_reason_def draws_from_def double_0_05_def double_0_10_def double_0_3_def js_def)

text \<open>
  C3, amended. The task keeps no result between runs: a re-run with the same items
  invokes the operation of every listed item again (it consumes at least as many draws
  as there are items, and every result it returns counts at least one attempt of its
  own), and it returns the same per-item results as the previous run when its operations
  draw the same values as before.
\<close>

theorem rerun_recomputes:
  assumes "partialSuccess clk rnd items w = (out1, w1)"
    and "partialSuccess clk rnd items w1 = (out2, w2)"
  shows "draws w1 + length items \<le> draws w2 \<and>
         (\<forall>i\<in>set items. \<exists>r. lookup out2 i = Some r \<and> 1 \<le> attempts r) \<and>
         ((\<forall>k. rnd (draws w1 + k) = rnd (draws w + k)) \<longrightarrow> results out2 = results out1)"
proof (intro conjI impI ballI)
  have "draws w2 = draws (snd (items_loop rnd items ([], w1\<lparr>ticks := Suc (ticks w1)\<rparr>)))"
    using draws_partialSuccess [of clk rnd items w1] assms(2) by simp
  then show "draws w1 + length items \<le> draws w2"
    using items_loop_draws [of "w1\<lparr>ticks := Suc (ticks w1)\<rparr>" items rnd "[]"] by simp
next
  fix i assume "i \<in> set items"
  from lookup_listed [OF this, of clk rnd w1] assms(2)
  show "\<exists>r. lookup out2 i = Some r \<and> 1 \<le> attempts r"
    by (auto simp add: good_def)
next
  assume "\<forall>k. rnd (draws w1 + k) = rnd (draws w + k)"
  then have "\<forall>k. rnd (draws (w1\<lparr>ticks := Suc (ticks w1)\<rparr>) + k) =
                 rnd (draws (w\<lparr>ticks := Suc (ticks w)\<rparr>) + k)"
    by simp
  from items_loop_shift [OF this]
  have "results (fst (partialSuccess clk rnd items w1)) = results (fst (partialSuccess clk rnd items w))"
    by (simp add: results_partialSuccess)
  with assms show "results out2 = results out1" by simp
qed

text \<open>C3, amended, at two runs whose operations always draw 0.5.\<close>

theorem rerun_recomputes_witness:
  "partialSuccess int (draws_from [] (1 / 2)) [js ''a''] \<lparr>ticks = 0, draws = 0\<rparr> =
     (\<lparr>ps_ok = True, okCount = 1, failedCount = 0, ps_durationMs = 1,
       results = [(js ''item:a'', \<lparr>ok = True, attempts = 1, reason = None\<rparr>)]\<rparr>,
      \<lparr>ticks = 2, draws = 1\<rparr>) \<and>
   partialSuccess int (draws_from [] (1 / 2)) [js ''a''] \<lparr>ticks = 2, draws = 1\<rparr> =
     (\<lparr>ps_ok = True, okCount = 1, failedCount = 0, ps_durationMs = 1,
       results = [(js ''item:a'', \<lparr>ok = True, attempts = 1, reason = None\<rparr>)]\<rparr>,
      \<lparr>ticks = 4, draws = 2\<rparr>) \<and>
   (\<forall>k. draws_from [] (1 / 2) (draws \<lparr>ticks = 2, draws = 1\<rparr> + k) =
        draws_from [] (1 / 2) (draws \<lparr>ticks = 0, draws = 0\<rparr> + k)) \<and>
   draws \<lparr>ticks = 2, draws = 1\<rparr> + length [js ''a''] \<le> draws \<lparr>ticks = 4, draws = 2\<rparr>"
proof -
  have r1: "partialSuccess int (draws_from [] (1 / 2)) [js ''a''] \<lparr>ticks = 0, draws = 0\<rparr> =
     (\<lparr>ps_ok = True, okCount = 1, failedCount = 0, ps_durationMs = 1,
       results = [(js ''item:a'', \<lparr>ok = True, attempts = 1, reason = None\<rparr>)]\<rparr>,
      \<lparr>ticks = 2, draws = 1\<rparr>)"
    by (simp add: partialSuccess_eq process_item_eq item_outcome_def draws_from_def double_0_05_def double_0_10_def double_0_3_def js_def)
  have r2: "partialSuccess int (draws_from [] (1 / 2)) [js ''a''] \<lparr>ticks = 2, draws = 1\<rparr> =
     (\<lparr>ps_ok = True, okCount = 1, failedCount = 0, ps_durationMs = 1,
       results = [(js ''item:a'', \<lparr>ok = True, attempts = 1, reason = None\<rparr>)]\<rparr>,
      \<lparr>ticks = 4, draws = 2\<rparr>)"
    by (simp add: partialSuccess_eq process_item_eq item_outcome_def draws_from_def double_0_05_def double_0_10_def double_0_3_def js_def)
  from rerun_recomputes [OF r1 r2] r1 r2 show ?thesis
    by (simp add: draws_from_def double_0_05_def double_0_10_def double_0_3_def)
qed

section \<open>The circuit breaker\<close>

lemma upstream_eq:
  "upstream rnd w =
     (if rnd (draws w) < double_0_3 then
        (Inl (JSError (js ''Error'') (js ''Upstream 5xx'') None (Some 502)),
         w\<lparr>draws := Suc (draws w)\<rparr>)
      else (Inr succeeded, w\<lparr>draws := Suc (draws w)\<rparr>))"
  by (simp add: upstream_def Math_random_def succeeded_def)

lemma breaker_call_eq:
  "breaker_call clk rnd cooldown (b, w) =
     (if clk (ticks w) < openedUntil b then (rejected, b, w\<lparr>ticks := Suc (ticks w)\<rparr>)
      else if double_0_3 \<le> rnd (draws w) then
        (succeeded, \<lparr>consecutive = 0, openedUntil = openedUntil b\<rparr>,
         \<lparr>ticks = ticks w + 1, draws = draws w + 1\<rparr>)
      else if double_0_3 \<le> rnd (draws w + 1) then
        (succeeded, \<lparr>consecutive = 0, openedUntil = openedUntil b\<rparr>,
         \<lparr>ticks = ticks w + 1, draws = draws w + 2\<rparr>)
      else (failed, trip clk cooldown b w))"
  by (cases b, cases w)
     (simp add: breaker_call_def Date_now_def onThrow_2 upstream_eq js_def rejected_def
             succeeded_def failed_def trip_def maxConsecutive_def Let_def)

lemma results_distinct:
  "rejected \<noteq> failed" "rejected \<noteq> succeeded" "failed \<noteq> succeeded"
  "\<not> call_ok rejected" "\<not> call_ok failed" "call_ok succeeded"
  by (simp_all add: rejected_def failed_def succeeded_def)

lemma trip_consecutive: "consecutive (fst (trip clk cooldown b w)) = Suc (consecutive b)"
  by (simp add: trip_def)

lemma calls_loop_count:
  "calls_loop clk rnd cooldown n ([], b, w) = (rs, b', w') \<Longrightarrow> succeeded \<notin> set rs \<Longrightarrow>
     consecutive b' = consecutive b + count_list rs failed"
proof (induction n arbitrary: rs b' w')
  case 0
  then show ?case by simp
next
  case (Suc n)
  obtain rs0 b0 w0 where prev: "calls_loop clk rnd cooldown n ([], b, w) = (rs0, b0, w0)"
    by (metis prod_cases3)
  obtain r where step: "breaker_call clk rnd cooldown (b0, w0) = (r, b', w')" and rs: "rs = rs0 @ [r]"
    using Suc.prems(1) prev by (auto split: prod.splits)
  from Suc.prems(2) rs have "succeeded \<notin> set rs0" and r: "r \<noteq> succeeded" by auto
  with Suc.IH prev
  have ih: "consecutive b0 = consecutive b + count_list rs0 failed" by blast
  from step r have "(r = rejected \<and> b' = b0) \<or> (r = failed \<and> b' = fst (trip clk cooldown b0 w0))"
    by (auto simp add: breaker_call_eq split: if_splits)
  then show ?case
    using ih rs results_distinct by (auto simp add: trip_consecutive)
qed

lemma last_call_trips:
  assumes "calls_loop clk rnd cooldown n ([], b, w) = (rs, b', w')"
    and "rs \<noteq> []" and "last rs = failed" and "maxConsecutive \<le> consecutive b'"
  shows "openedUntil b' = clk (ticks w' - 1) + cooldown"
proof (cases n)
  case 0
  with assms show ?thesis by simp
next
  case (Suc m)
  obtain rs0 b0 w0 where prev: "calls_loop clk rnd cooldown m ([], b, w) = (rs0, b0, w0)"
    by (metis prod_cases3)
  obtain r where step: "breaker_call clk rnd cooldown (b0, w0) = (r, b', w')" and rs: "rs = rs0 @ [r]"
    using assms(1) prev Suc by (auto split: prod.splits)
  from rs assms(3) have "r = failed" by simp
  with step have "(b', w') = trip clk cooldown b0 w0"
    using results_distinct by (auto simp add: breaker_call_eq split: if_splits)
  with assms(4) show ?thesis
    by (auto simp add: trip_def split: if_splits)
qed

text \<open>
  C5. A sequence of calls without a success that ends with a failure of the operation
  and holds at least \<open>maxConsecutive\<close> such failures leaves the breaker open:
  \<open>openedUntil\<close> is the clock reading taken at that last failure plus the cooldown.
  A call that arrives while \<open>now < openedUntil\<close> is answered 503, changes neither the
  breaker nor the number of draws (the operation is not invoked), and a call that
  arrives once \<open>now \<ge> openedUntil\<close> is attempted: it is not answered 503 and the
  operation draws.
\<close>

theorem circuit_trips_and_recovers:
  "(calls_loop clk rnd cooldown n ([], b, w) = (rs, b', w') \<and> succeeded \<notin> set rs \<and>
    rs \<noteq> [] \<and> last rs = failed \<and> maxConsecutive \<le> count_list rs failed
      \<longrightarrow> maxConsecutive \<le> consecutive b' \<and> openedUntil b' = clk (ticks w' - 1) + cooldown) \<and>
   (clk (ticks w) < openedUntil b
      \<longrightarrow> breaker_call clk rnd cooldown (b, w) = (rejected, b, w\<lparr>ticks := Suc (ticks w)\<rparr>)) \<and>
   (openedUntil b \<le> clk (ticks w)
      \<longrightarrow> fst (breaker_call clk rnd cooldown (b, w)) \<noteq> rejected \<and>
          draws w < draws (snd (snd (breaker_call clk rnd cooldown (b, w)))))"
proof (intro conjI impI)
  assume a: "calls_loop clk rnd cooldown n ([], b, w) = (rs, b', w') \<and> succeeded \<notin> set rs \<and>
    rs \<noteq> [] \<and> last rs = failed \<and> maxConsecutive \<le> count_list rs failed"
  then have "consecutive b' = consecutive b + count_list rs failed"
    using calls_loop_count by blast
  with a show c: "maxConsecutive \<le> consecutive b'" by simp
  from a c show "openedUntil b' = clk (ticks w' - 1) + cooldown"
    using last_call_trips by blast
next
  assume "clk (ticks w) < openedUntil b"
  then show "breaker_call clk rnd cooldown (b, w) = (rejected, b, w\<lparr>ticks := Suc (ticks w)\<rparr>)"
    by (simp add: breaker_call_eq)
next
  assume "openedUntil b \<le> clk (ticks w)"
  then show "fst (breaker_call clk rnd cooldown (b, w)) \<noteq> rejected"
    using results_distinct by (auto simp add: breaker_call_eq)
next
  assume "openedUntil b \<le> clk (ticks w)"
  then show "draws w < draws (snd (snd (breaker_call clk rnd cooldown (b, w))))"
    by (auto simp add: breaker_call_eq trip_def)
qed

lemma five_failures:
  "calls_loop (ticking 1000) (draws_from [] 0) 5000 5 ([], breaker0, \<lparr>ticks = 0, draws = 0\<rparr>) =
     ([failed, failed, failed, failed, failed],
      \<lparr>consecutive = 5, openedUntil = 10000\<rparr>, \<lparr>ticks = 6, draws = 10\<rparr>)"
  by (simp add: eval_nat_numeral breaker_call_eq trip_def maxConsecutive_def breaker0_def
        ticking_def draws_from_def double_0_05_def double_0_10_def double_0_3_def)

text \<open>
  C5 at five failing calls from the initial breaker, with a cooldown of 5000: the breaker
  opens until 10000, a call at 6000 is rejected and a call at 10000 is attempted.
\<close>

theorem circuit_trips_and_recovers_witness:
  "calls_loop (ticking 1000) (draws_from [] 0) 5000 5 ([], breaker0, \<lparr>ticks = 0, draws = 0\<rparr>) =
     ([failed, failed, failed, failed, failed],
      \<lparr>consecutive = 5, openedUntil = 10000\<rparr>, \<lparr>ticks = 6, draws = 10\<rparr>) \<and>
   succeeded \<notin> set [failed, failed, failed, failed, failed] \<and>
   last [failed, failed, failed, failed, failed] = failed \<and>
   maxConsecutive \<le> count_list [failed, failed, failed, failed, failed] failed \<and>
   openedUntil \<lparr>consecutive = 5, openedUntil = 10000\<rparr> = ticking 1000 (6 - 1) + 5000 \<and>
   ticking 1000 (ticks \<lparr>ticks = 6, draws = 10\<rparr>) < openedUntil \<lparr>consecutive = 5, openedUntil = 10000\<rparr> \<and>
   breaker_call (ticking 1000) (draws_from [] 0) 5000
       (\<lparr>consecutive = 5, openedUntil = 10000\<rparr>, \<lparr>ticks = 6, draws = 10\<rparr>) =
     (rejected, \<lparr>consecutive = 5, openedUntil = 10000\<rparr>, \<lparr>ticks = 7, draws = 10\<rparr>) \<and>
   openedUntil \<lparr>consecutive = 5, openedUntil = 10000\<rparr> \<le> ticking 1000 (ticks \<lparr>ticks = 10, draws = 10\<rparr>) \<and>
   fst (breaker_call (ticking 1000) (draws_from [] 0) 5000
       (\<lparr>consecutive = 5, openedUntil = 10000\<rparr>, \<lparr>ticks = 10, draws = 10\<rparr>)) \<noteq> rejected"
  using circuit_trips_and_recovers [of "ticking 1000" "draws_from [] 0" 5000 5 breaker0
          "\<lparr>ticks = 0, draws = 0\<rparr>" "[failed, failed, failed, failed, failed]"
          "\<lparr>consecutive = 5, openedUntil = 10000\<rparr>" "\<lparr>ticks = 6, draws = 10\<rparr>"]
        circuit_trips_and_recovers [of "ticking 1000" "draws_from [] 0" 5000 0
          "\<lparr>consecutive = 5, openedUntil = 10000\<rparr>" "\<lparr>ticks = 6, draws = 10\<rparr>"]
        circuit_trips_and_recovers [of "ticking 1000" "draws_from [] 0" 5000 0
          "\<lparr>consecutive = 5, openedUntil = 10000\<rparr>" "\<lparr>ticks = 10, draws = 10\<rparr>"]
        five_failures results_distinct
  by (simp add: maxConsecutive_def ticking_def)

text \<open>
  C8. The first call after \<open>now \<ge> openedUntil\<close> of a breaker that had tripped
  (\<open>consecutive \<ge> maxConsecutive\<close>) is attempted. If it succeeds the count is reset to 0
  and the breaker is closed (\<open>openedUntil\<close> is not in the future); if it fails the
  breaker re-opens at once, with \<open>openedUntil\<close> set to the clock reading taken at that
  failure plus the cooldown.
\<close>

theorem half_open_call:
  assumes "maxConsecutive \<le> consecutive b" and "openedUntil b \<le> clk (ticks w)"
    and "breaker_call clk rnd cooldown (b, w) = (r, b', w')"
  shows "draws w < draws w' \<and>
         (call_ok r \<longrightarrow> consecutive b' = 0 \<and> openedUntil b' = openedUntil b \<and>
                      \<not> clk (ticks w) < openedUntil b') \<and>
         (\<not> call_ok r \<longrightarrow> maxConsecutive \<le> consecutive b' \<and>
                        openedUntil b' = clk (ticks w' - 1) + cooldown)"
  using assms results_distinct
  by (auto simp add: breaker_call_eq trip_def split: if_splits)

text \<open>C8 at a breaker open until 10000, called at 10000: one success, one failure.\<close>

theorem half_open_call_witness:
  "maxConsecutive \<le> consecutive \<lparr>consecutive = 5, openedUntil = 10000\<rparr> \<and>
   openedUntil \<lparr>consecutive = 5, openedUntil = 10000\<rparr> \<le> ticking 1000 (ticks \<lparr>ticks = 10, draws = 10\<rparr>) \<and>
   breaker_call (ticking 1000) (draws_from [] (1 / 2)) 5000
       (\<lparr>consecutive = 5, openedUntil = 10000\<rparr>, \<lparr>ticks = 10, draws = 10\<rparr>) =
     (succeeded, \<lparr>consecutive = 0, openedUntil = 10000\<rparr>, \<lparr>ticks = 11, draws = 11\<rparr>) \<and>
   call_ok succeeded \<and>
   \<not> ticking 1000 (ticks \<lparr>ticks = 10, draws = 10\<rparr>) < openedUntil \<lparr>consecutive = 0, openedUntil = 10000\<rparr> \<and>
   breaker_call (ticking 1000) (draws_from [] 0) 5000
       (\<lparr>consecutive = 5, openedUntil = 10000\<rparr>, \<lparr>ticks = 10, draws = 10\<rparr>) =
     (failed, \<lparr>consecutive = 6, openedUntil = 16000\<rparr>, \<lparr>ticks = 12, draws = 12\<rparr>) \<and>
   \<not> call_ok failed \<and>
   openedUntil \<lparr>consecutive = 6, openedUntil = 16000\<rparr> =
     ticking 1000 (ticks \<lparr>ticks = 12, draws = 12\<rparr> - 1) + 5000"
proof -
  have h1: "maxConsecutive \<le> consecutive \<lparr>consecutive = 5, openedUntil = 10000\<rparr>"
    by (simp add: maxConsecutive_def)
  have h2: "openedUntil \<lparr>consecutive = 5, openedUntil = 10000\<rparr>
              \<le> ticking 1000 (ticks \<lparr>ticks = 10, draws = 10\<rparr>)"
    by (simp add: ticking_def)
  have s: "breaker_call (ticking 1000) (draws_from [] (1 / 2)) 5000
       (\<lparr>consecutive = 5, openedUntil = 10000\<rparr>, \<lparr>ticks = 10, draws = 10\<rparr>) =
     (succeeded, \<lparr>consecutive = 0, openedUntil = 10000\<rparr>, \<lparr>ticks = 11, draws = 11\<rparr>)"
    by (simp add: breaker_call_eq ticking_def draws_from_def double_0_05_def double_0_10_def double_0_3_def)
  have f: "breaker_call (ticking 1000) (draws_from [] 0) 5000
       (\<lparr>consecutive = 5, openedUntil = 10000\<rparr>, \<lparr>ticks = 10, draws = 10\<rparr>) =
     (failed, \<lparr>consecutive = 6, openedUntil = 16000\<rparr>, \<lparr>ticks = 12, draws = 12\<rparr>)"
    by (simp add: breaker_call_eq trip_def maxConsecutive_def ticking_def draws_from_def double_0_05_def double_0_10_def double_0_3_def)
  from half_open_call [OF h1 h2 s] half_open_call [OF h1 h2 f] h1 h2 s f results_distinct
  show ?thesis by simp
qed

text \<open>
  C4, as stated, fails. The claim: after a call whose operation succeeds,
  \<open>openedUntil\<close> is cleared. Here five failures trip the breaker at 6000 with a
  cooldown of 1, the sixth call (at 7000) succeeds, and \<open>openedUntil\<close> is still 6001:
  the task reports \<open>openUntil: 6001\<close>, not \<open>null\<close>.
\<close>

theorem stale_openedUntil_after_success:
  "calls_loop (ticking 1000) (draws_from [0, 0, 0, 0, 0, 0, 0, 0, 0, 0] (1 / 2)) 1 6
       ([], breaker0, \<lparr>ticks = 1, draws = 0\<rparr>) =
     ([failed, failed, failed, failed, failed, succeeded],
      \<lparr>consecutive = 0, openedUntil = 6001\<rparr>, \<lparr>ticks = 8, draws = 11\<rparr>) \<and>
   fst (circuitBreaker (ticking 1000) (draws_from [0, 0, 0, 0, 0, 0, 0, 0, 0, 0] (1 / 2))
          \<lparr>calls = 6, cooldownMs = Some 1\<rparr> (breaker0, \<lparr>ticks = 0, draws = 0\<rparr>)) =
     \<lparr>cb_ok = False, cb_attempts = 6, cb_okCount = 1, cb_failCount = 5,
      consecutivelyTripped = False, openUntil = Some 6001, cb_durationMs = 8000\<rparr>"
  by (simp add: circuitBreaker_def Date_now_def eval_nat_numeral breaker_call_eq trip_def
        maxConsecutive_def breaker0_def ticking_def draws_from_def double_0_05_def double_0_10_def double_0_3_def results_distinct)

text \<open>
  C4, amended. After a call whose operation succeeds, \<open>consecutive\<close> is 0 and
  \<open>openedUntil\<close> is what it was before the call, a time not later than the reading at
  the start of the call; and a call changes \<open>openedUntil\<close> only when its operation
  was invoked and failed (the result pushed is the 502) and the count it leaves has
  reached \<open>maxConsecutive\<close>.
\<close>

theorem success_resets_count_only:
  assumes "breaker_call clk rnd cooldown (b, w) = (r, b', w')"
  shows "(call_ok r \<longrightarrow> consecutive b' = 0 \<and> openedUntil b' = openedUntil b \<and>
                      openedUntil b' \<le> clk (ticks w)) \<and>
         (openedUntil b' \<noteq> openedUntil b \<longrightarrow>
            \<not> call_ok r \<and> r = failed \<and> draws w < draws w' \<and> maxConsecutive \<le> consecutive b')"
  using assms results_distinct
  by (auto simp add: breaker_call_eq trip_def split: if_splits)

text \<open>C4, amended, at a success in the half-open window and at a fifth failure.\<close>

theorem success_resets_count_only_witness:
  "breaker_call (ticking 1000) (draws_from [] (1 / 2)) 5000
       (\<lparr>consecutive = 5, openedUntil = 10000\<rparr>, \<lparr>ticks = 10, draws = 10\<rparr>) =
     (succeeded, \<lparr>consecutive = 0, openedUntil = 10000\<rparr>, \<lparr>ticks = 11, draws = 11\<rparr>) \<and>
   call_ok succeeded \<and>
   consecutive \<lparr>consecutive = 0, openedUntil = 10000\<rparr> = 0 \<and>
   openedUntil \<lparr>consecutive = 0, openedUntil = 10000\<rparr> \<le> ticking 1000 (ticks \<lparr>ticks = 10, draws = 10\<rparr>) \<and>
   breaker_call (ticking 1000) (draws_from [] 0) 5000
       (\<lparr>consecutive = 4, openedUntil = 0\<rparr>, \<lparr>ticks = 10, draws = 10\<rparr>) =
     (failed, \<lparr>consecutive = 5, openedUntil = 16000\<rparr>, \<lparr>ticks = 12, draws = 12\<rparr>) \<and>
   openedUntil \<lparr>consecutive = 5, openedUntil = 16000\<rparr> \<noteq> openedUntil \<lparr>consecutive = 4, openedUntil = 0\<rparr> \<and>
   \<not> call_ok failed \<and> maxConsecutive \<le> consecutive \<lparr>consecutive = 5, openedUntil = 16000\<rparr>"
proof -
  have s: "breaker_call (ticking 1000) (draws_from [] (1 / 2)) 5000
       (\<lparr>consecutive = 5, openedUntil = 10000\<rparr>, \<lparr>ticks = 10, draws = 10\<rparr>) =
     (succeeded, \<lparr>consecutive = 0, openedUntil = 10000\<rparr>, \<lparr>ticks = 11, draws = 11\<rparr>)"
    by (simp add: breaker_call_eq ticking_def draws_from_def double_0_05_def double_0_10_def double_0_3_def)
  have f: "breaker_call (ticking 1000) (draws_from [] 0) 5000
       (\<lparr>consecutive = 4, openedUntil = 0\<rparr>, \<lparr>ticks = 10, draws = 10\<rparr>) =
     (failed, \<lparr>consecutive = 5, openedUntil = 16000\<rparr>, \<lparr>ticks = 12, draws = 12\<rparr>)"
    by (simp add: breaker_call_eq trip_def maxConsecutive_def ticking_def draws_from_def double_0_05_def double_0_10_def double_0_3_def)
  from success_resets_count_only [OF s] success_resets_count_only [OF f] s f results_distinct
  show ?thesis by simp
qed

section \<open>Escalation and resumption\<close>

text \<open>
  C9. Escalate-then-resume round trip: an invocation without a resume token returns
  \<open>{ok: false, escalated: true}\<close> with the resume token \<open>RESUME-123\<close>, and an
  invocation carrying that token, at any later time and with any data, returns
  \<open>{ok: true, resumed: true}\<close>.
\<close>

theorem escalate_then_resume:
  "\<exists>t1 t2 w1 w2.
     humanEscalation clk \<lparr>data = d, resumeToken = None\<rparr> w =
       (Inr (Escalation False True
               (js ''Escalated for review. Re-run with resumeToken to continue.'')
               (js ''RESUME-123'') t1), w1) \<and>
     humanEscalation clk' \<lparr>data = d', resumeToken = Some (js ''RESUME-123'')\<rparr> w' =
       (Inr (Resumption True True t2), w2)"
  by (simp add: humanEscalation_def Date_now_def js_def)

text \<open>
  C2, as stated, fails. The claim: after a resume with token \<open>T\<close> has succeeded, a
  later resume with \<open>T\<close> fails with \<open>TokenAlreadyUsed\<close>. Here a resume with
  \<open>RESUME-123\<close> succeeds, and the next invocation with the same token, in the world the
  first one left, succeeds again.
\<close>

theorem second_resume_succeeds_again:
  "humanEscalation int \<lparr>data = js ''x'', resumeToken = Some (js ''RESUME-123'')\<rparr>
       \<lparr>ticks = 0, draws = 0\<rparr> = (Inr (Resumption True True 1), \<lparr>ticks = 2, draws = 0\<rparr>) \<and>
   humanEscalation int \<lparr>data = js ''x'', resumeToken = Some (js ''RESUME-123'')\<rparr>
       \<lparr>ticks = 2, draws = 0\<rparr> = (Inr (Resumption True True 1), \<lparr>ticks = 4, draws = 0\<rparr>)"
  by (simp add: humanEscalation_def Date_now_def js_def)

text \<open>
  C2, amended. Resuming is repeatable: if a resume invocation with token \<open>T\<close> returns
  \<open>{ok: true, resumed: true}\<close>, then \<open>T\<close> is the fixed token \<open>RESUME-123\<close> and every
  later resume invocation with \<open>T\<close>, whatever its data and time, returns
  \<open>{ok: true, resumed: true}\<close> again. The task records no resolution.
\<close>

theorem resume_is_repeatable:
  assumes "fst (humanEscalation clk \<lparr>data = d, resumeToken = Some T\<rparr> w) = Inr (Resumption a b t)"
  shows "T = js ''RESUME-123'' \<and>
         (\<forall>clk' d' w'. \<exists>t'.
            fst (humanEscalation clk' \<lparr>data = d', resumeToken = Some T\<rparr> w') =
              Inr (Resumption True True t'))"
  using assms
  by (auto simp add: humanEscalation_def Date_now_def js_def split: if_splits)

text \<open>C2, amended, at a first resume that succeeds.\<close>

theorem resume_is_repeatable_witness:
  "fst (humanEscalation int \<lparr>data = js ''x'', resumeToken = Some (js ''RESUME-123'')\<rparr>
         \<lparr>ticks = 0, draws = 0\<rparr>) = Inr (Resumption True True 1) \<and>
   (\<exists>t'. fst (humanEscalation (ticking 2)
                 \<lparr>data = js ''y'', resumeToken = Some (js ''RESUME-123'')\<rparr>
                 \<lparr>ticks = 7, draws = 0\<rparr>) = Inr (Resumption True True t'))"
proof -
  have h: "fst (humanEscalation int
                  \<lparr>data = js ''x'', resumeToken = Some (js ''RESUME-123'')\<rparr>
                  \<lparr>ticks = 0, draws = 0\<rparr>) = Inr (Resumption True True 1)"
    by (simp add: humanEscalation_def Date_now_def js_def)
  from resume_is_repeatable [OF h] h show ?thesis by blast
qed

section \<open>Degradation\<close>

text \<open>
  C7, as stated, fails. The claim: when every tier fails, the result names the tier
  \<open>fallback-default\<close>. With \<open>LLM_MOCK\<close> unset both tiers of the task fail, and the
  result names \<open>template\<close>.
\<close>

theorem label_is_template:
  "fst (gracefulDegradation int None (js ''hi'') \<lparr>ticks = 0, draws = 0\<rparr>) =
     Inr \<lparr>gd_ok = True, model = js ''template'', degraded = Some True,
          gd_output = js ''We're experiencing issues. Draft: hi'' @ ellipsis,
          gd_durationMs = 1\<rparr> \<and>
   js ''template'' \<noteq> js ''fallback-default''"
  by (simp add: gracefulDegradation_def callLLM_def Date_now_def js_def Error_def)

text \<open>
  C7, amended. For every prompt and every value of \<open>LLM_MOCK\<close> the task returns a
  result with \<open>ok: true\<close> and never raises; when both tiers fail, the result has
  \<open>degraded: true\<close>, the model \<open>template\<close>, and the output built from the prompt
  alone: the fixed sentence, the first 20 code units of the prompt and an ellipsis, which
  is not empty.
\<close>

theorem degrades_to_template:
  "\<exists>r w'. gracefulDegradation clk LLM_MOCK prompt w = (Inr r, w') \<and> gd_ok r \<and>
          (isl (callLLM primary prompt (LLM_MOCK = Some (js ''1''))) \<and>
           isl (callLLM secondary prompt (LLM_MOCK = Some (js ''1''))) \<longrightarrow>
             degraded r = Some True \<and> model r = js ''template'' \<and>
             gd_output r = js ''We're experiencing issues. Draft: '' @ take 20 prompt @ ellipsis \<and>
             gd_output r \<noteq> [])"
  by (simp add: gracefulDegradation_def callLLM_def Date_now_def Error_def js_def split: sum.splits)

text \<open>C7, amended, at the prompt \<open>hi\<close> with \<open>LLM_MOCK\<close> unset.\<close>

theorem degrades_to_template_witness:
  "isl (callLLM primary (js ''hi'') (None = Some (js ''1''))) \<and>
   isl (callLLM secondary (js ''hi'') (None = Some (js ''1''))) \<and>
   answer (gracefulDegradation int None (js ''hi'') \<lparr>ticks = 0, draws = 0\<rparr>) =
     Some (True, js ''template'', Some True,
           js ''We're experiencing issues. Draft: hi'' @ ellipsis)"
proof -
  have h: "isl (callLLM primary (js ''hi'') (None = Some (js ''1''))) \<and>
           isl (callLLM secondary (js ''hi'') (None = Some (js ''1'')))"
    by (simp add: callLLM_def)
  obtain r w' where
    "gracefulDegradation int None (js ''hi'') \<lparr>ticks = 0, draws = 0\<rparr> = (Inr r, w')"
    "gd_ok r" "degraded r = Some True" "model r = js ''template''"
    "gd_output r = js ''We're experiencing issues. Draft: '' @ take 20 (js ''hi'') @ ellipsis"
    using degrades_to_template [of int None "js ''hi''" "\<lparr>ticks = 0, draws = 0\<rparr>"] h by blast
  then show ?thesis using h by (simp add: answer_def js_def)
qed

text \<open>
  C10, as stated, fails. The claim: the task and the standalone function return the same
  \<open>ok\<close>, \<open>model\<close>, \<open>degraded\<close> and \<open>output\<close> for every prompt and every
  \<open>LLM_MOCK\<close>. With \<open>LLM_MOCK\<close> unset the task answers from the template and the
  standalone function from the secondary tier.
\<close>

theorem defaults_differ:
  "answer (gracefulDegradation int None (js ''hi'') \<lparr>ticks = 0, draws = 0\<rparr>) =
     Some (True, js ''template'', Some True,
           js ''We're experiencing issues. Draft: hi'' @ ellipsis) \<and>
   answer (testGracefulDegradation int None (js ''hi'') \<lparr>ticks = 0, draws = 0\<rparr>) =
     Some (True, js ''secondary'', Some True, js ''fallback(hi)'') \<and>
   answer (gracefulDegradation int None (js ''hi'') \<lparr>ticks = 0, draws = 0\<rparr>) \<noteq>
   answer (testGracefulDegradation int None (js ''hi'') \<lparr>ticks = 0, draws = 0\<rparr>)"
  by (simp add: answer_def gracefulDegradation_def testGracefulDegradation_def callLLM_def
                Date_now_def js_def Error_def)

text \<open>
  C10, amended. The two functions return the same \<open>ok\<close>, \<open>model\<close>, \<open>degraded\<close>
  and \<open>output\<close> for every prompt when \<open>LLM_MOCK\<close> is \<open>"0"\<close> or \<open>"1"\<close>; for any
  other value, and when it is unset, the task answers from the template and the
  standalone function from the secondary tier.
\<close>

theorem agree_on_0_and_1:
  "(LLM_MOCK = Some (js ''0'') \<or> LLM_MOCK = Some (js ''1'') \<longrightarrow>
      answer (gracefulDegradation clk LLM_MOCK prompt w) =
      answer (testGracefulDegradation clk' LLM_MOCK prompt w')) \<and>
   (LLM_MOCK \<noteq> Some (js ''0'') \<and> LLM_MOCK \<noteq> Some (js ''1'') \<longrightarrow>
      answer (gracefulDegradation clk LLM_MOCK prompt w) =
        Some (True, js ''template'', Some True,
              js ''We're experiencing issues. Draft: '' @ take 20 prompt @ ellipsis) \<and>
      answer (testGracefulDegradation clk' LLM_MOCK prompt w') =
        Some (True, js ''secondary'', Some True, js ''fallback('' @ take 12 prompt @ js '')''))"
  by (auto simp add: answer_def gracefulDegradation_def testGracefulDegradation_def callLLM_def
                Date_now_def js_def Error_def)

text \<open>C10, amended, at \<open>LLM_MOCK = "1"\<close> and at \<open>LLM_MOCK\<close> unset.\<close>

theorem agree_on_0_and_1_witness:
  "(Some (js ''1'') = Some (js ''0'') \<or> Some (js ''1'') = Some (js ''1'')) \<and>
   answer (gracefulDegradation int (Some (js ''1'')) (js ''hi'') \<lparr>ticks = 0, draws = 0\<rparr>) =
   answer (testGracefulDegradation int (Some (js ''1'')) (js ''hi'') \<lparr>ticks = 3, draws = 0\<rparr>) \<and>
   (None \<noteq> Some (js ''0'') \<and> None \<noteq> Some (js ''1'')) \<and>
   answer (testGracefulDegradation int None (js ''hi'') \<lparr>ticks = 3, draws = 0\<rparr>) =
     Some (True, js ''secondary'', Some True, js ''fallback('' @ take 12 (js ''hi'') @ js '')'')"
  using agree_on_0_and_1 [of "Some (js ''1'')" int "js ''hi''" "\<lparr>ticks = 0, draws = 0\<rparr>" int
                             "\<lparr>ticks = 3, draws = 0\<rparr>"]
        agree_on_0_and_1 [of None int "js ''hi''" "\<lparr>ticks = 0, draws = 0\<rparr>" int
                             "\<lparr>ticks = 3, draws = 0\<rparr>"]
  by simp

end
